theory Spec2Isabelle
  imports Main "HOL-Library.Word"
begin

section \<open>lsmi-ps3: a game controller as a MIDI source\<close>

text \<open>
  A shallow embedding of \<^verbatim>\<open>lsmi-ps3.c\<close>: the mapping table \<^verbatim>\<open>map\<close>, the parser of the
  user's mappings \<^verbatim>\<open>parse_map\<close> and the event loop of \<^verbatim>\<open>main\<close>. C's \<^verbatim>\<open>int\<close> and
  \<^verbatim>\<open>unsigned int\<close> are 32-bit words, \<^verbatim>\<open>__u16\<close> is a 16-bit word and \<^verbatim>\<open>unsigned char\<close>
  an 8-bit word. Signed overflow, which C leaves undefined, wraps around in the model;
  the theorems that read a word as a signed number say in which range they do so.
\<close>

type_synonym u8 = "8 word"
type_synonym u16 = "16 word"
type_synonym u32 = "32 word"
type_synonym s32 = "32 word"

named_theorems codes \<open>numeric values of the constants of the system headers\<close>

subsection \<open>Constants of the system headers\<close>

text \<open>
  Event types and codes, with the values of \<^verbatim>\<open>linux/input-event-codes.h\<close>.
\<close>

definition EV_KEY :: u16 where [codes]: "EV_KEY = 0x01"
definition EV_ABS :: u16 where [codes]: "EV_ABS = 0x03"

definition BTN_SOUTH :: u16 where [codes]: "BTN_SOUTH = 0x130"
definition BTN_EAST :: u16 where [codes]: "BTN_EAST = 0x131"
definition BTN_NORTH :: u16 where [codes]: "BTN_NORTH = 0x133"
definition BTN_WEST :: u16 where [codes]: "BTN_WEST = 0x134"
definition BTN_TL :: u16 where [codes]: "BTN_TL = 0x136"
definition BTN_TR :: u16 where [codes]: "BTN_TR = 0x137"
definition BTN_TL2 :: u16 where [codes]: "BTN_TL2 = 0x138"
definition BTN_TR2 :: u16 where [codes]: "BTN_TR2 = 0x139"
definition BTN_SELECT :: u16 where [codes]: "BTN_SELECT = 0x13a"
definition BTN_START :: u16 where [codes]: "BTN_START = 0x13b"
definition BTN_THUMBL :: u16 where [codes]: "BTN_THUMBL = 0x13d"
definition BTN_THUMBR :: u16 where [codes]: "BTN_THUMBR = 0x13e"
definition BTN_DPAD_UP :: u16 where [codes]: "BTN_DPAD_UP = 0x220"
definition BTN_DPAD_DOWN :: u16 where [codes]: "BTN_DPAD_DOWN = 0x221"
definition BTN_DPAD_LEFT :: u16 where [codes]: "BTN_DPAD_LEFT = 0x222"
definition BTN_DPAD_RIGHT :: u16 where [codes]: "BTN_DPAD_RIGHT = 0x223"

definition ABS_X :: u16 where [codes]: "ABS_X = 0x00"
definition ABS_Y :: u16 where [codes]: "ABS_Y = 0x01"
definition ABS_Z :: u16 where [codes]: "ABS_Z = 0x02"
definition ABS_RX :: u16 where [codes]: "ABS_RX = 0x03"
definition ABS_RY :: u16 where [codes]: "ABS_RY = 0x04"
definition ABS_RZ :: u16 where [codes]: "ABS_RZ = 0x05"

text \<open>
  The sequencer's event types, with the values of the enumeration
  \<^verbatim>\<open>snd_seq_event_type\<close> of \<^verbatim>\<open>alsa/seq_event.h\<close>.
\<close>

definition SND_SEQ_EVENT_NOTEON :: int where [codes]: "SND_SEQ_EVENT_NOTEON = 6"
definition SND_SEQ_EVENT_CONTROLLER :: int where [codes]: "SND_SEQ_EVENT_CONTROLLER = 10"
definition SND_SEQ_EVENT_PGMCHANGE :: int where [codes]: "SND_SEQ_EVENT_PGMCHANGE = 11"
definition SND_SEQ_EVENT_PITCHBEND :: int where [codes]: "SND_SEQ_EVENT_PITCHBEND = 13"

text \<open>\<^verbatim>\<open>#define DOWN 1\<close>\<close>

definition DOWN :: s32 where [codes]: "DOWN = 1"

subsection \<open>Data\<close>

text \<open>
  \<^verbatim>\<open>struct input_event\<close>: the fields the program reads (the time stamp is never
  looked at). \<^verbatim>\<open>value\<close> is an \<^verbatim>\<open>__s32\<close>.
\<close>

record input_event =
  iev_type :: u16
  iev_code :: u16
  iev_value :: s32

text \<open>\<^verbatim>\<open>struct map_s\<close>, an entry of the button mapping.\<close>

record map_s =
  ev_type :: int
  number :: u32
  channel :: u32

text \<open>
  What \<^verbatim>\<open>main\<close> fills into a \<^verbatim>\<open>snd_seq_event_t\<close>, one constructor for each of the
  macros it uses. \<^verbatim>\<open>snd_seq_ev_set_noteon\<close> stores channel, note and velocity into
  \<^verbatim>\<open>unsigned char\<close> fields; \<^verbatim>\<open>snd_seq_ev_set_pitchbend\<close> and
  \<^verbatim>\<open>snd_seq_ev_set_pgmchange\<close> store the channel into an \<^verbatim>\<open>unsigned char\<close> and the
  value into a \<^verbatim>\<open>signed int\<close>.
\<close>

datatype snd_seq_event =
    NoteOn (ev_channel: u8) (ev_note: u8) (ev_velocity: u8)
  | PitchBend (ev_channel: u8) (ev_value: s32)
  | PgmChange (ev_channel: u8) (ev_value: s32)

text \<open>
  The mapping table as compiled in: \<^verbatim>\<open>struct map_s map[22]\<close>, each entry
  \<^verbatim>\<open>{ev_type, number, channel}\<close>.
\<close>

definition mk_map :: "int \<Rightarrow> u32 \<Rightarrow> u32 \<Rightarrow> map_s" where
  "mk_map t n c = \<lparr>ev_type = t, number = n, channel = c\<rparr>"

definition map_default :: "map_s list" where
  "map_default =
    [ mk_map SND_SEQ_EVENT_NOTEON 48 0,
      mk_map SND_SEQ_EVENT_NOTEON 52 0,
      mk_map SND_SEQ_EVENT_NOTEON 55 0,
      mk_map SND_SEQ_EVENT_NOTEON 60 0,
      mk_map SND_SEQ_EVENT_NOTEON 64 0,
      mk_map SND_SEQ_EVENT_NOTEON 67 0,
      mk_map SND_SEQ_EVENT_NOTEON 72 0,
      mk_map SND_SEQ_EVENT_NOTEON 76 0,
      mk_map SND_SEQ_EVENT_NOTEON 79 0,
      mk_map SND_SEQ_EVENT_NOTEON 84 0,
      mk_map SND_SEQ_EVENT_NOTEON 50 0,
      mk_map SND_SEQ_EVENT_NOTEON 55 0,
      mk_map SND_SEQ_EVENT_NOTEON 59 0,
      mk_map SND_SEQ_EVENT_NOTEON 62 0,
      mk_map SND_SEQ_EVENT_PITCHBEND 0 0,
      mk_map SND_SEQ_EVENT_PITCHBEND 1 0,
      mk_map SND_SEQ_EVENT_PITCHBEND 2 0,
      mk_map SND_SEQ_EVENT_PITCHBEND 3 0,
      mk_map SND_SEQ_EVENT_NOTEON 77 0,
      mk_map SND_SEQ_EVENT_NOTEON 81 0,
      mk_map SND_SEQ_EVENT_PGMCHANGE 81 0,
      mk_map SND_SEQ_EVENT_PGMCHANGE 81 0 ]"

subsection \<open>The event loop of main\<close>

text \<open>
  The first \<^verbatim>\<open>switch\<close> of the loop, on \<^verbatim>\<open>iev.code\<close>: the index \<^verbatim>\<open>i\<close> into the table, or
  \<open>None\<close> for the \<^verbatim>\<open>default\<close> label, which goes on to the next cycle.
\<close>

definition switch_code :: "u16 \<Rightarrow> nat option" where
  "switch_code c =
    (if c = BTN_NORTH then Some 0
     else if c = BTN_SOUTH then Some 1
     else if c = BTN_EAST then Some 2
     else if c = BTN_WEST then Some 3
     else if c = BTN_DPAD_UP then Some 4
     else if c = BTN_DPAD_DOWN then Some 5
     else if c = BTN_DPAD_RIGHT then Some 6
     else if c = BTN_DPAD_LEFT then Some 7
     else if c = BTN_TR then Some 8
     else if c = BTN_TL then Some 9
     else if c = BTN_TR2 then Some 10
     else if c = BTN_TL2 then Some 11
     else if c = BTN_THUMBR then Some 12
     else if c = BTN_THUMBL then Some 13
     else if c = ABS_X then Some 14
     else if c = ABS_Y then Some 15
     else if c = ABS_RX then Some 16
     else if c = ABS_RY then Some 17
     else if c = ABS_Z then Some 18
     else if c = ABS_RZ then Some 19
     else if c = BTN_SELECT then Some 20
     else if c = BTN_START then Some 21
     else None)"

text \<open>
  The type test and the first switch together: the slot of an event, or \<open>None\<close> when
  the cycle ends at one of the two \<^verbatim>\<open>continue\<close> statements before the table is read.
\<close>

definition classify :: "u16 \<Rightarrow> u16 \<Rightarrow> nat option" where
  "classify ty c =
    (if ty \<noteq> EV_KEY \<and> ty \<noteq> EV_ABS then None else switch_code c)"

text \<open>
  The state that lives across the cycles of the loop: the global \<^verbatim>\<open>pgm\<close> and the
  buffer \<^verbatim>\<open>iev\<close> that \<^verbatim>\<open>read\<close> fills.
\<close>

record state =
  pgm :: s32
  iev :: input_event

text \<open>
  The second \<^verbatim>\<open>switch\<close>, \<^verbatim>\<open>switch ( ev.type = map[i].ev_type )\<close>: the event to send, if any,
  and the new value of \<^verbatim>\<open>pgm\<close>. The value switched on is the one stored in \<^verbatim>\<open>ev.type\<close>,
  an \<^verbatim>\<open>unsigned char\<close>. The switch has no \<^verbatim>\<open>case\<close> for
  \<^verbatim>\<open>SND_SEQ_EVENT_CONTROLLER\<close>: such an entry reaches the \<^verbatim>\<open>default\<close> label, which
  prints a message and sends nothing. (In the source \<^verbatim>\<open>snd_seq_drain_output(seq)\<close>
  lacks its semicolon; it is read as the statement it was meant to be, which does
  not touch the event.)
\<close>

definition switch_ev_type :: "map_s \<Rightarrow> s32 \<Rightarrow> s32 \<Rightarrow> snd_seq_event option \<times> s32" where
  "switch_ev_type e v p =
    (let t = ev_type e mod 256 in
     if t = SND_SEQ_EVENT_PITCHBEND then
       (Some (PitchBend (ucast (channel e)) (v * 64 - 8192)), p)
     else if t = SND_SEQ_EVENT_NOTEON then
       (Some (NoteOn (ucast (channel e)) (ucast (number e)) (if v = DOWN then 127 else 0)), p)
     else if t = SND_SEQ_EVENT_PGMCHANGE then
       (if v = 1 then (Some (PgmChange (ucast (channel e)) (p + 1)), p + 1)
        else (None, p))
     else (None, p))"

text \<open>
  The outcome of \<^verbatim>\<open>read( fd, &iev, sizeof( iev ) )\<close>: an event stored into the buffer,
  or a failure (\<^verbatim>\<open>read\<close> returns -1 and stores nothing). The program drops the
  return value, so after a failure the buffer holds what it held before.
\<close>

datatype read_result = ReadOk input_event | ReadFail

fun read_iev :: "read_result \<Rightarrow> input_event \<Rightarrow> input_event" where
  "read_iev (ReadOk e) buf = e"
| "read_iev ReadFail buf = buf"

text \<open>
  One cycle of \<^verbatim>\<open>for ( ;; )\<close>: read, classify, build the event. The result is the event
  handed to \<^verbatim>\<open>send_event\<close> in this cycle, if any, and the state after the cycle. The
  index \<open>i\<close> is below 22 and the table has 22 entries, at the start and after every
  \<^verbatim>\<open>parse_map\<close>, so that \<^verbatim>\<open>map[i]\<close> is an entry of the table.
\<close>

definition cycle :: "map_s list \<Rightarrow> read_result \<Rightarrow> state \<Rightarrow> snd_seq_event option \<times> state" where
  "cycle m r s =
    (let buf = read_iev r (iev s) in
     case classify (iev_type buf) (iev_code buf) of
       None \<Rightarrow> (None, s\<lparr>iev := buf\<rparr>)
     | Some i \<Rightarrow>
         (case switch_ev_type (m ! i) (iev_value buf) (pgm s) of
            (out, p) \<Rightarrow> (out, s\<lparr>pgm := p, iev := buf\<rparr>)))"

text \<open>
  Modelled from the spec: \<^verbatim>\<open>send_event\<close> is declared in \<^verbatim>\<open>seq.h\<close> and its body is not
  among the sources. The spec's dispatch loop "dispatches the event to the output
  consumer", one event at a time and in order, so sending an event appends it to the
  stream of events sent so far.
\<close>

definition send_event :: "snd_seq_event option \<Rightarrow> snd_seq_event list \<Rightarrow> snd_seq_event list" where
  "send_event out sent = (case out of None \<Rightarrow> sent | Some e \<Rightarrow> sent @ [e])"

text \<open>
  The loop never ends by itself. Its behaviour on the first reads of the input, given
  as a list, is the stream of events sent during these cycles and the state after
  them.
\<close>

fun main_loop :: "map_s list \<Rightarrow> read_result list \<Rightarrow> state \<Rightarrow> snd_seq_event list
    \<Rightarrow> snd_seq_event list \<times> state" where
  "main_loop m [] s sent = (sent, s)"
| "main_loop m (r # rs) s sent =
    (case cycle m r s of (out, s') \<Rightarrow> main_loop m rs s' (send_event out sent))"

text \<open>
  The state at the start of the loop: \<^verbatim>\<open>int pgm = 0\<close>, and a buffer \<^verbatim>\<open>iev\<close> that has not
  been written yet, so that its contents \<open>buf\<close> are arbitrary.
\<close>

definition init_state :: "input_event \<Rightarrow> state" where
  "init_state buf = \<lparr>pgm = 0, iev = buf\<rparr>"

text \<open>A read that stores the event with the given type, code and value.\<close>

definition input :: "u16 \<Rightarrow> u16 \<Rightarrow> s32 \<Rightarrow> read_result" where
  "input ty c v = ReadOk \<lparr>iev_type = ty, iev_code = c, iev_value = v\<rparr>"

text \<open>The events sent during the first reads of a loop that starts with the table \<open>m\<close>.\<close>

definition run :: "map_s list \<Rightarrow> read_result list \<Rightarrow> input_event \<Rightarrow> snd_seq_event list" where
  "run m rs buf = fst (main_loop m rs (init_state buf) [])"


subsection \<open>The user's mappings: parse_map\<close>

text \<open>
  \<^verbatim>\<open>isspace\<close> and \<^verbatim>\<open>isdigit\<close> of the C locale, and the value of a run of decimal
  digits.
\<close>

definition isspace :: "char \<Rightarrow> bool" where
  "isspace c = (c \<in> set [CHR '' '', CHR 0x09, CHR 0x0A, CHR 0x0B, CHR 0x0C, CHR 0x0D])"

definition isdigit :: "char \<Rightarrow> bool" where
  "isdigit c = (48 \<le> (of_char c :: int) \<and> (of_char c :: int) \<le> 57)"

definition decimal :: "string \<Rightarrow> int" where
  "decimal ds = foldl (\<lambda>a c. 10 * a + (of_char c - 48)) 0 ds"

text \<open>
  What \<^verbatim>\<open>%u\<close> stores for a number with the digits of value \<open>n\<close>, after a minus sign
  when \<open>neg\<close> holds. For a number that fits an \<^verbatim>\<open>unsigned int\<close> and has no minus sign
  this is the number. Otherwise ISO C leaves the result open, and the model does what
  the GNU C library does on a 64-bit system: the text goes through \<^verbatim>\<open>strtoul\<close>, which
  negates modulo \<open>2\<^sup>6\<^sup>4\<close> and stops at \<^verbatim>\<open>ULONG_MAX\<close>, and the result is cut to 32 bits.
\<close>

definition strtoul :: "bool \<Rightarrow> int \<Rightarrow> 64 word" where
  "strtoul neg n = (if 2 ^ 64 \<le> n then - 1 else if neg then - of_int n else of_int n)"

definition store_u :: "bool \<Rightarrow> int \<Rightarrow> u32" where
  "store_u neg n = ucast (strtoul neg n)"

text \<open>
  The optional sign in front of the digits: whether it is a minus sign, and the text
  after it.
\<close>

fun scan_sign :: "string \<Rightarrow> bool \<times> string" where
  "scan_sign [] = (False, [])"
| "scan_sign (c # cs) =
    (if c = CHR ''-'' then (True, cs) else if c = CHR ''+'' then (False, cs) else (False, c # cs))"

text \<open>
  The conversion \<^verbatim>\<open>%u\<close>: white space is skipped, then an optional sign and the longest
  run of digits are read. The result is the value stored and the rest of the input,
  or \<open>None\<close> when there is no digit to read.
\<close>

definition scan_u :: "string \<Rightarrow> (u32 \<times> string) option" where
  "scan_u s =
    (case scan_sign (dropWhile isspace s) of
       (neg, s') \<Rightarrow>
         if takeWhile isdigit s' = [] then None
         else Some (store_u neg (decimal (takeWhile isdigit s')), dropWhile isdigit s'))"

text \<open>
  \<^verbatim>\<open>sscanf( s, "%1[cn]:%u:%u", t, &map[i].channel, &map[i].number )\<close>: how far the scan
  got and what it stored. \<^verbatim>\<open>%1[cn]\<close> reads one character, a \<^verbatim>\<open>c\<close> or an \<^verbatim>\<open>n\<close>, without
  skipping white space; a colon of the format matches a colon of the input. Input
  after the last conversion is not looked at.
\<close>

datatype scanned =
    Scanned_EOF
  | Scanned0
  | Scanned1 char
  | Scanned2 char u32
  | Scanned3 char u32 u32

fun sscanf_ret :: "scanned \<Rightarrow> int" where
  "sscanf_ret Scanned_EOF = - 1"
| "sscanf_ret Scanned0 = 0"
| "sscanf_ret (Scanned1 t) = 1"
| "sscanf_ret (Scanned2 t c) = 2"
| "sscanf_ret (Scanned3 t c n) = 3"

fun sscanf_map :: "string \<Rightarrow> scanned" where
  "sscanf_map [] = Scanned_EOF"
| "sscanf_map (t # s) =
    (if t \<noteq> CHR ''c'' \<and> t \<noteq> CHR ''n'' then Scanned0
     else case s of
       [] \<Rightarrow> Scanned1 t
     | x # s1 \<Rightarrow>
         if x \<noteq> CHR '':'' then Scanned1 t
         else case scan_u s1 of
           None \<Rightarrow> Scanned1 t
         | Some (c, s2) \<Rightarrow>
             (case s2 of
                [] \<Rightarrow> Scanned2 t c
              | y # s3 \<Rightarrow>
                  if y \<noteq> CHR '':'' then Scanned2 t c
                  else case scan_u s3 of
                    None \<Rightarrow> Scanned2 t c
                  | Some (n, s4) \<Rightarrow> Scanned3 t c n))"

text \<open>
  \<^verbatim>\<open>parse_map\<close>. The two ways it ends the program with \<^verbatim>\<open>exit( 1 )\<close> are the two errors.
  When it returns, the result is the table with entry \<open>i\<close> replaced, and whether the
  message "Controller and note numbers must be between 0 and 127!" was printed:
  that test reads \<^verbatim>\<open>map[i].channel\<close>, after the decrement, and its branch only prints.
  The stores into \<^verbatim>\<open>map[i]\<close> (the two numbers by \<^verbatim>\<open>sscanf\<close>, the decrement, the type)
  are collected into one update of entry \<open>i\<close>. The callers pass 0, 1 or 2 for \<open>i\<close>.
\<close>

datatype map_error = Invalid_mapping | Channel_range

definition parse_map :: "nat \<Rightarrow> string \<Rightarrow> map_s list \<Rightarrow> map_error + map_s list \<times> bool" where
  "parse_map i s m =
    (let r = sscanf_map s in
     if sscanf_ret r \<noteq> 3 then Inl Invalid_mapping
     else case r of
       Scanned3 t c n \<Rightarrow>
         if 1 \<le> c \<and> c \<le> 16 then
           Inr (m[i := \<lparr>ev_type = (if t = CHR ''c'' then SND_SEQ_EVENT_CONTROLLER
                                    else SND_SEQ_EVENT_NOTEON),
                        number = n, channel = c - 1\<rparr>],
                127 < c - 1)
         else Inl Channel_range
     | _ \<Rightarrow> Inl Invalid_mapping)"

text \<open>
  The options \<^verbatim>\<open>-1\<close>, \<^verbatim>\<open>-2\<close> and \<^verbatim>\<open>-3\<close> of \<^verbatim>\<open>get_args\<close>, with their arguments, in the
  order of the command line; the other options do not touch the table.
\<close>

datatype button_option = Button_one string | Button_two string | Button_three string

fun get_args :: "button_option list \<Rightarrow> map_s list \<Rightarrow> map_error + map_s list" where
  "get_args [] m = Inr m"
| "get_args (Button_one s # os) m =
    (case parse_map 0 s m of Inl e \<Rightarrow> Inl e | Inr (m', w) \<Rightarrow> get_args os m')"
| "get_args (Button_two s # os) m =
    (case parse_map 1 s m of Inl e \<Rightarrow> Inl e | Inr (m', w) \<Rightarrow> get_args os m')"
| "get_args (Button_three s # os) m =
    (case parse_map 2 s m of Inl e \<Rightarrow> Inl e | Inr (m', w) \<Rightarrow> get_args os m')"

text \<open>
  \<^verbatim>\<open>main\<close>, from the options to the events sent during the first reads: the loop is
  entered only when every mapping has been applied. (Opening the device and the
  sequencer port is taken to succeed.)
\<close>

definition main_prog :: "button_option list \<Rightarrow> read_result list \<Rightarrow> input_event
    \<Rightarrow> map_error + snd_seq_event list" where
  "main_prog opts rs buf =
    (case get_args opts map_default of
       Inl e \<Rightarrow> Inl e
     | Inr m \<Rightarrow> Inr (run m rs buf))"

text \<open>
  The format of a mapping in the words of the specification, for comparison with
  \<^verbatim>\<open>parse_map\<close>: exactly three tokens separated by colons, the first \<open>c\<close> or \<open>n\<close>, the
  other two numeric, and the channel between 1 and 16.
\<close>

fun split_colon :: "string \<Rightarrow> string list" where
  "split_colon [] = [[]]"
| "split_colon (c # cs) =
    (if c = CHR '':'' then [] # split_colon cs
     else case split_colon cs of
       [] \<Rightarrow> [[c]]
     | t # ts \<Rightarrow> (c # t) # ts)"

definition spec_numeric :: "string \<Rightarrow> bool" where
  "spec_numeric t = (t \<noteq> [] \<and> list_all isdigit t)"

definition spec_accepts :: "string \<Rightarrow> bool" where
  "spec_accepts s =
    (case split_colon s of
       [k, c, n] \<Rightarrow>
         (k = ''c'' \<or> k = ''n'') \<and> spec_numeric c \<and> spec_numeric n
           \<and> 1 \<le> decimal c \<and> decimal c \<le> 16
     | _ \<Rightarrow> False)"

text \<open>
  The text of a number as \<^verbatim>\<open>%u\<close> reads it: white space, an optional sign, and at
  least one digit with nothing but digits after it; and the value stored for it.
\<close>

definition number_text :: "string \<Rightarrow> bool" where
  "number_text a =
    (snd (scan_sign (dropWhile isspace a)) \<noteq> []
      \<and> list_all isdigit (snd (scan_sign (dropWhile isspace a))))"

definition number_value :: "string \<Rightarrow> u32" where
  "number_value a =
    store_u (fst (scan_sign (dropWhile isspace a)))
      (decimal (snd (scan_sign (dropWhile isspace a))))"


text \<open>The event sent in a cycle that reads the event \<open>e\<close>.\<close>

definition sent_by :: "map_s list \<Rightarrow> input_event \<Rightarrow> state \<Rightarrow> snd_seq_event option" where
  "sent_by m e s = fst (cycle m (ReadOk e) s)"

text \<open>
  The values of an axis for which \<^verbatim>\<open>(iev.value * 64) - 8192\<close> stays within C's \<^verbatim>\<open>int\<close>:
  from \<open>- 2\<^sup>2\<^sup>5 + 128\<close> to \<open>2\<^sup>2\<^sup>5 - 1\<close>.
\<close>

definition axis_range :: "s32 \<Rightarrow> bool" where
  "axis_range v = (- 33554304 \<le> sint v \<and> sint v \<le> 33554431)"

text \<open>A buffer of zero bytes, for the examples that need a concrete one.\<close>

definition iev0 :: input_event where
  "iev0 = \<lparr>iev_type = 0, iev_code = 0, iev_value = 0\<rparr>"


text \<open>
  The codes of the \<^verbatim>\<open>case\<close> labels of the first switch, in the order of the slots they
  select: the physical control of each slot.
\<close>

definition controls :: "u16 list" where
  "controls =
    [ BTN_NORTH, BTN_SOUTH, BTN_EAST, BTN_WEST,
      BTN_DPAD_UP, BTN_DPAD_DOWN, BTN_DPAD_RIGHT, BTN_DPAD_LEFT,
      BTN_TR, BTN_TL, BTN_TR2, BTN_TL2,
      BTN_THUMBR, BTN_THUMBL,
      ABS_X, ABS_Y, ABS_RX, ABS_RY,
      ABS_Z, ABS_RZ,
      BTN_SELECT, BTN_START ]"

section \<open>Theorems\<close>

text \<open>
  C6. With the default table, a press and a release of \<^verbatim>\<open>BTN_SOUTH\<close>, read as two key
  events with values 1 and 0, make the loop send a note-on for note 52 on channel 0
  with velocity 127, then one with velocity 0, and nothing else.
\<close>

theorem south_press_release:
  "run map_default [input EV_KEY BTN_SOUTH 1, input EV_KEY BTN_SOUTH 0] buf
     = [NoteOn 0 52 127, NoteOn 0 52 0]"
  by (simp add: run_def init_state_def input_def cycle_def classify_def switch_code_def
      switch_ev_type_def send_event_def map_default_def mk_map_def codes)

subsection \<open>Helper lemmas\<close>

lemma signed_take_bit_31_id:
  "- 2147483648 \<le> (x::int) \<Longrightarrow> x < 2147483648 \<Longrightarrow> signed_take_bit (31::nat) x = x"
  by (rule signed_take_bit_int_eq_self) simp_all

lemma sint_pitchbend:
  fixes v :: s32
  assumes "axis_range v"
  shows "sint (v * 64 - 8192) = sint v * 64 - 8192"
proof -
  from assms have r: "- 33554304 \<le> sint v" "sint v \<le> 33554431"
    by (simp_all add: axis_range_def)
  have a: "signed_take_bit (31::nat) (sint v * 64) = sint v * 64"
    using r by (intro signed_take_bit_31_id) simp_all
  have b: "signed_take_bit (31::nat) (sint v * 64 - 8192) = sint v * 64 - 8192"
    using r by (intro signed_take_bit_31_id) simp_all
  show ?thesis
    by (simp add: sint_word_ariths a b)
qed

lemma sint_succ:
  fixes p :: s32
  assumes "sint p < 2147483647"
  shows "sint (p + 1) = sint p + 1"
proof -
  have "- 2147483648 \<le> sint p"
    using sint_ge [of p] by simp
  then have "signed_take_bit (31::nat) (sint p + 1) = sint p + 1"
    using assms by (intro signed_take_bit_31_id) simp_all
  then show ?thesis
    by (simp add: sint_word_ariths)
qed

lemma cycle_classified:
  assumes "classify (iev_type e) (iev_code e) = Some i"
  shows "cycle m (ReadOk e) s =
    (fst (switch_ev_type (m ! i) (iev_value e) (pgm s)),
     s\<lparr>pgm := snd (switch_ev_type (m ! i) (iev_value e) (pgm s)), iev := e\<rparr>)"
  using assms by (simp add: cycle_def split: prod.splits)

lemma classify_key_abs:
  "ty = EV_KEY \<or> ty = EV_ABS \<Longrightarrow> classify ty c = switch_code c"
  by (auto simp: classify_def)

lemma switch_pitchbend:
  "ev_type x = SND_SEQ_EVENT_PITCHBEND \<Longrightarrow>
    switch_ev_type x v p = (Some (PitchBend (ucast (channel x)) (v * 64 - 8192)), p)"
  by (simp add: switch_ev_type_def codes)

lemma switch_noteon:
  "ev_type x = SND_SEQ_EVENT_NOTEON \<Longrightarrow>
    switch_ev_type x v p =
      (Some (NoteOn (ucast (channel x)) (ucast (number x)) (if v = 1 then 127 else 0)), p)"
  by (simp add: switch_ev_type_def codes)

lemma switch_pgmchange:
  "ev_type x = SND_SEQ_EVENT_PGMCHANGE \<Longrightarrow>
    switch_ev_type x v p =
      (if v = 1 then (Some (PgmChange (ucast (channel x)) (p + 1)), p + 1) else (None, p))"
  by (simp add: switch_ev_type_def codes)

lemma main_loop_pitchbend:
  assumes "\<forall>e \<in> set es. iev_type e = EV_ABS \<and>
      (\<exists>i. switch_code (iev_code e) = Some i \<and> ev_type (m ! i) = SND_SEQ_EVENT_PITCHBEND)"
  shows "fst (main_loop m (map ReadOk es) s sent) =
    sent @ map (\<lambda>e. PitchBend (ucast (channel (m ! the (switch_code (iev_code e)))))
                  (iev_value e * 64 - 8192)) es"
  using assms
proof (induction es arbitrary: s sent)
  case Nil
  then show ?case by simp
next
  case (Cons e es)
  from Cons.prems obtain i where i: "iev_type e = EV_ABS" "switch_code (iev_code e) = Some i"
    "ev_type (m ! i) = SND_SEQ_EVENT_PITCHBEND"
    by auto
  then have c: "classify (iev_type e) (iev_code e) = Some i"
    by (simp add: classify_key_abs)
  have step: "cycle m (ReadOk e) s =
      (Some (PitchBend (ucast (channel (m ! i))) (iev_value e * 64 - 8192)), s\<lparr>iev := e\<rparr>)"
    by (simp add: cycle_classified [OF c] switch_pitchbend [OF i(3)])
  from Cons.prems have rest: "\<forall>e \<in> set es. iev_type e = EV_ABS \<and>
      (\<exists>i. switch_code (iev_code e) = Some i \<and> ev_type (m ! i) = SND_SEQ_EVENT_PITCHBEND)"
    by simp
  show ?case
    by (simp add: step send_event_def Cons.IH [OF rest] i(2))
qed

subsection \<open>Pitch bend\<close>

text \<open>
  C1. An axis event whose slot is mapped to pitch bend makes the cycle send one
  pitch-bend event, on the slot's channel, with the value \<open>rawValue * 64 - 8192\<close>
  computed in \<^verbatim>\<open>int\<close>; \<^verbatim>\<open>pgm\<close> stays as it is. For raw values in \<open>axis_range\<close>, where
  the C expression does not overflow, the value sent is that number read as a signed
  integer, and a larger raw value gives a larger value. A run of such events sends one
  event for each of them, in order. With the default table, \<^verbatim>\<open>ABS_X\<close> at 0 sends
  \<open>PitchBend 0 (-8192)\<close> and at 256 sends \<open>PitchBend 0 8192\<close>.
\<close>

theorem pitchbend_affine:
  assumes "iev_type e = EV_ABS"
    and "switch_code (iev_code e) = Some i"
    and "ev_type (m ! i) = SND_SEQ_EVENT_PITCHBEND"
  shows "cycle m (ReadOk e) s =
      (Some (PitchBend (ucast (channel (m ! i))) (iev_value e * 64 - 8192)), s\<lparr>iev := e\<rparr>)
    \<and> (axis_range (iev_value e) \<longrightarrow>
        (\<exists>x. sent_by m e s = Some x \<and> sint (ev_value x) = sint (iev_value e) * 64 - 8192))
    \<and> (\<forall>v. axis_range (iev_value e) \<and> axis_range v \<and> sint (iev_value e) \<le> sint v \<longrightarrow>
        (\<exists>x y. sent_by m e s = Some x \<and> sent_by m (e\<lparr>iev_value := v\<rparr>) s = Some y
           \<and> sint (ev_value x) \<le> sint (ev_value y)))
    \<and> (\<forall>es. (\<forall>e' \<in> set es. iev_type e' = EV_ABS \<and>
          (\<exists>j. switch_code (iev_code e') = Some j \<and> ev_type (m ! j) = SND_SEQ_EVENT_PITCHBEND))
        \<longrightarrow> fst (main_loop m (map ReadOk es) s sent) =
              sent @ map (\<lambda>e'. PitchBend (ucast (channel (m ! the (switch_code (iev_code e')))))
                                  (iev_value e' * 64 - 8192)) es)
    \<and> run map_default [input EV_ABS ABS_X 0] buf = [PitchBend 0 (- 8192)]
    \<and> run map_default [input EV_ABS ABS_X 256] buf = [PitchBend 0 8192]"
proof -
  have c: "classify (iev_type e) (iev_code e) = Some i"
    using assms(1,2) by (simp add: classify_key_abs)
  have step: "\<And>v. cycle m (ReadOk (e\<lparr>iev_value := v\<rparr>)) s =
      (Some (PitchBend (ucast (channel (m ! i))) (v * 64 - 8192)), s\<lparr>iev := e\<lparr>iev_value := v\<rparr>\<rparr>)"
    using c by (simp add: cycle_classified [where i = i] switch_pitchbend [OF assms(3)])
  have step0: "cycle m (ReadOk e) s =
      (Some (PitchBend (ucast (channel (m ! i))) (iev_value e * 64 - 8192)), s\<lparr>iev := e\<rparr>)"
    using step [of "iev_value e"] by simp
  have signed: "axis_range (iev_value e) \<longrightarrow>
      (\<exists>x. sent_by m e s = Some x \<and> sint (ev_value x) = sint (iev_value e) * 64 - 8192)"
    by (simp add: sent_by_def step0 sint_pitchbend)
  have mono: "\<forall>v. axis_range (iev_value e) \<and> axis_range v \<and> sint (iev_value e) \<le> sint v \<longrightarrow>
      (\<exists>x y. sent_by m e s = Some x \<and> sent_by m (e\<lparr>iev_value := v\<rparr>) s = Some y
         \<and> sint (ev_value x) \<le> sint (ev_value y))"
    by (simp add: sent_by_def step0 step sint_pitchbend)
  have stream: "\<forall>es. (\<forall>e' \<in> set es. iev_type e' = EV_ABS \<and>
        (\<exists>j. switch_code (iev_code e') = Some j \<and> ev_type (m ! j) = SND_SEQ_EVENT_PITCHBEND))
      \<longrightarrow> fst (main_loop m (map ReadOk es) s sent) =
            sent @ map (\<lambda>e'. PitchBend (ucast (channel (m ! the (switch_code (iev_code e')))))
                                (iev_value e' * 64 - 8192)) es"
    using main_loop_pitchbend by blast
  have ex0: "run map_default [input EV_ABS ABS_X 0] buf = [PitchBend 0 (- 8192)]"
    by (simp add: run_def init_state_def input_def cycle_def classify_def switch_code_def
        switch_ev_type_def send_event_def map_default_def mk_map_def codes)
  have ex256: "run map_default [input EV_ABS ABS_X 256] buf = [PitchBend 0 8192]"
    by (simp add: run_def init_state_def input_def cycle_def classify_def switch_code_def
        switch_ev_type_def send_event_def map_default_def mk_map_def codes)
  from step0 signed mono stream ex0 ex256 show ?thesis
    by blast
qed

theorem pitchbend_affine_witness:
  "cycle map_default (ReadOk \<lparr>iev_type = EV_ABS, iev_code = ABS_RY, iev_value = 255\<rparr>)
      (init_state iev0) =
    (Some (PitchBend 0 8128),
     \<lparr>pgm = 0, iev = \<lparr>iev_type = EV_ABS, iev_code = ABS_RY, iev_value = 255\<rparr>\<rparr>)
   \<and> axis_range 255 \<and> axis_range 256
   \<and> (\<exists>x. sent_by map_default \<lparr>iev_type = EV_ABS, iev_code = ABS_RY, iev_value = 255\<rparr>
           (init_state iev0) = Some x \<and> sint (ev_value x) = 8128)
   \<and> (\<exists>x y. sent_by map_default \<lparr>iev_type = EV_ABS, iev_code = ABS_RY, iev_value = 255\<rparr>
             (init_state iev0) = Some x
         \<and> sent_by map_default \<lparr>iev_type = EV_ABS, iev_code = ABS_RY, iev_value = 256\<rparr>
             (init_state iev0) = Some y
         \<and> sint (ev_value x) \<le> sint (ev_value y))
   \<and> fst (main_loop map_default
        (map ReadOk [\<lparr>iev_type = EV_ABS, iev_code = ABS_RY, iev_value = 255\<rparr>,
                     \<lparr>iev_type = EV_ABS, iev_code = ABS_RY, iev_value = 0\<rparr>])
        (init_state iev0) []) = [PitchBend 0 8128, PitchBend 0 (- 8192)]"
proof -
  let ?e = "\<lparr>iev_type = EV_ABS, iev_code = ABS_RY, iev_value = 255\<rparr>"
  let ?z = "\<lparr>iev_type = EV_ABS, iev_code = ABS_RY, iev_value = 0\<rparr>"
  have ty: "iev_type ?e = EV_ABS"
    by simp
  have slot: "switch_code (iev_code ?e) = Some 17"
    by (simp add: switch_code_def codes)
  have entry: "map_default ! 17 = mk_map SND_SEQ_EVENT_PITCHBEND 3 0"
    by (simp add: map_default_def)
  then have kind: "ev_type (map_default ! 17) = SND_SEQ_EVENT_PITCHBEND"
    by (simp add: mk_map_def)
  have r: "axis_range 255" "axis_range 256"
    by (simp_all add: axis_range_def)
  have all: "\<forall>e' \<in> set [?e, ?z]. iev_type e' = EV_ABS \<and>
      (\<exists>j. switch_code (iev_code e') = Some j
        \<and> ev_type (map_default ! j) = SND_SEQ_EVENT_PITCHBEND)"
    using slot kind by auto
  note w = pitchbend_affine [OF ty slot kind, of "init_state iev0" "[]"]
  from w have 1: "cycle map_default (ReadOk ?e) (init_state iev0) =
      (Some (PitchBend 0 8128), \<lparr>pgm = 0, iev = ?e\<rparr>)"
    by (simp add: entry mk_map_def init_state_def)
  from w r have 2: "\<exists>x. sent_by map_default ?e (init_state iev0) = Some x
      \<and> sint (ev_value x) = 8128"
    by simp
  from w have "\<forall>v. axis_range (iev_value ?e) \<and> axis_range v \<and> sint (iev_value ?e) \<le> sint v \<longrightarrow>
      (\<exists>x y. sent_by map_default ?e (init_state iev0) = Some x
         \<and> sent_by map_default (?e\<lparr>iev_value := v\<rparr>) (init_state iev0) = Some y
         \<and> sint (ev_value x) \<le> sint (ev_value y))"
    by blast
  from this [rule_format, of 256] r
  have 3: "\<exists>x y. sent_by map_default ?e (init_state iev0) = Some x
      \<and> sent_by map_default \<lparr>iev_type = EV_ABS, iev_code = ABS_RY, iev_value = 256\<rparr>
          (init_state iev0) = Some y
      \<and> sint (ev_value x) \<le> sint (ev_value y)"
    by simp
  from w have "\<forall>es. (\<forall>e' \<in> set es. iev_type e' = EV_ABS \<and>
        (\<exists>j. switch_code (iev_code e') = Some j
          \<and> ev_type (map_default ! j) = SND_SEQ_EVENT_PITCHBEND))
      \<longrightarrow> fst (main_loop map_default (map ReadOk es) (init_state iev0) []) =
            [] @ map (\<lambda>e'. PitchBend (ucast (channel (map_default ! the (switch_code (iev_code e')))))
                                (iev_value e' * 64 - 8192)) es"
    by blast
  with all have "fst (main_loop map_default (map ReadOk [?e, ?z]) (init_state iev0) []) =
      [] @ map (\<lambda>e'. PitchBend (ucast (channel (map_default ! the (switch_code (iev_code e')))))
                          (iev_value e' * 64 - 8192)) [?e, ?z]"
    by blast
  then have 4: "fst (main_loop map_default (map ReadOk [?e, ?z]) (init_state iev0) [])
      = [PitchBend 0 8128, PitchBend 0 (- 8192)]"
    using slot by (simp del: main_loop.simps add: entry mk_map_def)
  from 1 r 2 3 4 show ?thesis
    by simp
qed

subsection \<open>Note on\<close>

lemma main_loop_noteon:
  assumes "classify (iev_type e) (iev_code e) = Some i"
    and "ev_type (m ! i) = SND_SEQ_EVENT_NOTEON"
  shows "fst (main_loop m (replicate n (ReadOk e)) s sent) =
    sent @ replicate n (NoteOn (ucast (channel (m ! i))) (ucast (number (m ! i)))
                          (if iev_value e = 1 then 127 else 0))"
proof (induction n arbitrary: s sent)
  case 0
  then show ?case by simp
next
  case (Suc n)
  show ?case
    by (simp add: cycle_classified [OF assms(1)] switch_noteon [OF assms(2)] send_event_def
        Suc.IH replicate_app_Cons_same)
qed

text \<open>
  C2. An event whose slot is mapped to note-on makes the cycle send a note-on event
  (never another kind of event) on the slot's channel and note, with velocity 127 when
  the raw value is 1 and velocity 0 for every other raw value; \<^verbatim>\<open>pgm\<close> stays as it
  is. Reading the same event \<open>n\<close> times sends the same note-on event \<open>n\<close> times.
\<close>

theorem noteon_velocity:
  assumes "classify (iev_type e) (iev_code e) = Some i"
    and "ev_type (m ! i) = SND_SEQ_EVENT_NOTEON"
  shows "cycle m (ReadOk e) s =
      (Some (NoteOn (ucast (channel (m ! i))) (ucast (number (m ! i)))
               (if iev_value e = 1 then 127 else 0)), s\<lparr>iev := e\<rparr>)
    \<and> fst (main_loop m (replicate n (ReadOk e)) s sent) =
        sent @ replicate n (NoteOn (ucast (channel (m ! i))) (ucast (number (m ! i)))
                              (if iev_value e = 1 then 127 else 0))"
  using main_loop_noteon [OF assms]
  by (simp add: cycle_classified [OF assms(1)] switch_noteon [OF assms(2)])

theorem noteon_velocity_witness:
  "cycle map_default (ReadOk \<lparr>iev_type = EV_KEY, iev_code = BTN_TL, iev_value = 2\<rparr>)
      (init_state iev0) =
    (Some (NoteOn 0 84 0), \<lparr>pgm = 0, iev = \<lparr>iev_type = EV_KEY, iev_code = BTN_TL, iev_value = 2\<rparr>\<rparr>)
   \<and> fst (main_loop map_default
        (replicate 3 (ReadOk \<lparr>iev_type = EV_KEY, iev_code = BTN_TL, iev_value = 2\<rparr>))
        (init_state iev0) []) = replicate 3 (NoteOn 0 84 0)"
proof -
  let ?e = "\<lparr>iev_type = EV_KEY, iev_code = BTN_TL, iev_value = 2\<rparr>"
  have slot: "classify (iev_type ?e) (iev_code ?e) = Some 9"
    by (simp add: classify_def switch_code_def codes)
  have entry: "map_default ! 9 = mk_map SND_SEQ_EVENT_NOTEON 84 0"
    by (simp add: map_default_def)
  then have kind: "ev_type (map_default ! 9) = SND_SEQ_EVENT_NOTEON"
    by (simp add: mk_map_def)
  show ?thesis
    using noteon_velocity [OF slot kind, of "init_state iev0" 3 "[]"]
    by (simp add: entry mk_map_def init_state_def)
qed

subsection \<open>Program change\<close>

text \<open>
  C3. For events \<open>e\<close> and \<open>e'\<close> whose slots are mapped to program change: when the raw
  value of \<open>e\<close> is 1, the cycle sends exactly one program-change event, on the slot's
  channel, that carries \<open>pgm + 1\<close>, and \<^verbatim>\<open>pgm\<close> becomes \<open>pgm + 1\<close>; when the raw value
  is not 1, the cycle sends nothing and \<^verbatim>\<open>pgm\<close> stays as it is. Two presses in a row
  send \<open>pgm + 1\<close> and then \<open>pgm + 2\<close>, and leave \<^verbatim>\<open>pgm\<close> at \<open>pgm + 2\<close>. Below the largest
  \<^verbatim>\<open>int\<close> these are the numbers \<open>K + 1\<close> and \<open>K + 2\<close> for the counter \<open>K\<close>. With the
  default table, from the start: select pressed, select released, start pressed
  sends programs 1 and 2.
\<close>

theorem pgmchange_counter:
  assumes "classify (iev_type e) (iev_code e) = Some i"
    and "ev_type (m ! i) = SND_SEQ_EVENT_PGMCHANGE"
    and "classify (iev_type e') (iev_code e') = Some j"
    and "ev_type (m ! j) = SND_SEQ_EVENT_PGMCHANGE"
  shows "(iev_value e = 1 \<longrightarrow> cycle m (ReadOk e) s =
        (Some (PgmChange (ucast (channel (m ! i))) (pgm s + 1)), s\<lparr>pgm := pgm s + 1, iev := e\<rparr>))
    \<and> (iev_value e \<noteq> 1 \<longrightarrow> cycle m (ReadOk e) s = (None, s\<lparr>iev := e\<rparr>))
    \<and> (iev_value e = 1 \<and> iev_value e' = 1 \<longrightarrow>
        main_loop m [ReadOk e, ReadOk e'] s sent =
          (sent @ [PgmChange (ucast (channel (m ! i))) (pgm s + 1),
                   PgmChange (ucast (channel (m ! j))) (pgm s + 2)],
           s\<lparr>pgm := pgm s + 2, iev := e'\<rparr>))
    \<and> (sint (pgm s) < 2147483647 \<longrightarrow> sint (pgm s + 1) = sint (pgm s) + 1)
    \<and> (sint (pgm s) < 2147483646 \<longrightarrow> sint (pgm s + 2) = sint (pgm s) + 2)
    \<and> run map_default [input EV_KEY BTN_SELECT 1, input EV_KEY BTN_SELECT 0, input EV_KEY BTN_START 1] buf
        = [PgmChange 0 1, PgmChange 0 2]"
proof -
  have press: "iev_value e = 1 \<longrightarrow> cycle m (ReadOk e) s =
      (Some (PgmChange (ucast (channel (m ! i))) (pgm s + 1)), s\<lparr>pgm := pgm s + 1, iev := e\<rparr>)"
    by (simp add: cycle_classified [OF assms(1)] switch_pgmchange [OF assms(2)])
  have release: "iev_value e \<noteq> 1 \<longrightarrow> cycle m (ReadOk e) s = (None, s\<lparr>iev := e\<rparr>)"
    by (simp add: cycle_classified [OF assms(1)] switch_pgmchange [OF assms(2)])
  have twice: "iev_value e = 1 \<and> iev_value e' = 1 \<longrightarrow>
      main_loop m [ReadOk e, ReadOk e'] s sent =
        (sent @ [PgmChange (ucast (channel (m ! i))) (pgm s + 1),
                 PgmChange (ucast (channel (m ! j))) (pgm s + 2)],
         s\<lparr>pgm := pgm s + 2, iev := e'\<rparr>)"
    by (simp add: cycle_classified [OF assms(1)] switch_pgmchange [OF assms(2)]
        cycle_classified [OF assms(3)] switch_pgmchange [OF assms(4)] send_event_def)
  have one: "sint (pgm s) < 2147483647 \<longrightarrow> sint (pgm s + 1) = sint (pgm s) + 1"
    by (simp add: sint_succ)
  have two: "sint (pgm s) < 2147483646 \<longrightarrow> sint (pgm s + 2) = sint (pgm s) + 2"
  proof
    assume a: "sint (pgm s) < 2147483646"
    then have "sint (pgm s + 1) = sint (pgm s) + 1"
      by (simp add: sint_succ)
    moreover from this a have "sint (pgm s + 1 + 1) = sint (pgm s + 1) + 1"
      by (intro sint_succ) simp
    moreover have "pgm s + 1 + 1 = pgm s + 2"
      by simp
    ultimately show "sint (pgm s + 2) = sint (pgm s) + 2"
      by simp
  qed
  have example: "run map_default
      [input EV_KEY BTN_SELECT 1, input EV_KEY BTN_SELECT 0, input EV_KEY BTN_START 1] buf
        = [PgmChange 0 1, PgmChange 0 2]"
    by (simp add: run_def init_state_def input_def cycle_def classify_def switch_code_def
        switch_ev_type_def send_event_def map_default_def mk_map_def codes)
  from press release twice one two example show ?thesis
    by blast
qed

theorem pgmchange_counter_witness:
  "main_loop map_default
      [ReadOk \<lparr>iev_type = EV_KEY, iev_code = BTN_SELECT, iev_value = 1\<rparr>,
       ReadOk \<lparr>iev_type = EV_KEY, iev_code = BTN_START, iev_value = 1\<rparr>]
      \<lparr>pgm = 5, iev = iev0\<rparr> [] =
    ([PgmChange 0 6, PgmChange 0 7],
     \<lparr>pgm = 7, iev = \<lparr>iev_type = EV_KEY, iev_code = BTN_START, iev_value = 1\<rparr>\<rparr>)"
proof -
  let ?e = "\<lparr>iev_type = EV_KEY, iev_code = BTN_SELECT, iev_value = 1\<rparr>"
  let ?e' = "\<lparr>iev_type = EV_KEY, iev_code = BTN_START, iev_value = 1\<rparr>"
  have slot: "classify (iev_type ?e) (iev_code ?e) = Some 20"
    by (simp add: classify_def switch_code_def codes)
  have slot': "classify (iev_type ?e') (iev_code ?e') = Some 21"
    by (simp add: classify_def switch_code_def codes)
  have entry: "map_default ! 20 = mk_map SND_SEQ_EVENT_PGMCHANGE 81 0"
    by (simp add: map_default_def)
  have entry': "map_default ! 21 = mk_map SND_SEQ_EVENT_PGMCHANGE 81 0"
    by (simp add: map_default_def)
  have kind: "ev_type (map_default ! 20) = SND_SEQ_EVENT_PGMCHANGE"
    by (simp add: entry mk_map_def)
  have kind': "ev_type (map_default ! 21) = SND_SEQ_EVENT_PGMCHANGE"
    by (simp add: entry' mk_map_def)
  have "main_loop map_default [ReadOk ?e, ReadOk ?e'] \<lparr>pgm = 5, iev = iev0\<rparr> [] =
      ([] @ [PgmChange (ucast (channel (map_default ! 20))) (pgm \<lparr>pgm = 5, iev = iev0\<rparr> + 1),
             PgmChange (ucast (channel (map_default ! 21))) (pgm \<lparr>pgm = 5, iev = iev0\<rparr> + 2)],
       \<lparr>pgm = 5, iev = iev0\<rparr>\<lparr>pgm := pgm \<lparr>pgm = 5, iev = iev0\<rparr> + 2, iev := ?e'\<rparr>)"
    using pgmchange_counter [OF slot kind slot' kind', of "\<lparr>pgm = 5, iev = iev0\<rparr>" "[]"]
    by (simp del: main_loop.simps)
  then show ?thesis
    by (simp del: main_loop.simps add: entry entry' mk_map_def)
qed

subsection \<open>The classifier\<close>

lemma switch_code_controls_nth:
  "switch_code c = Some i \<Longrightarrow> i < 22 \<and> controls ! i = c"
  by (simp add: switch_code_def controls_def split: if_splits)

lemma switch_code_on_controls: "map switch_code controls = map Some [0..<22]"
  by (simp add: switch_code_def controls_def codes upt_rec)

lemma length_controls: "length controls = 22"
  by (simp add: controls_def)

lemma switch_code_nth_controls:
  assumes "i < 22"
  shows "switch_code (controls ! i) = Some i"
proof -
  have "map switch_code controls ! i = map Some [0..<22] ! i"
    by (simp only: switch_code_on_controls)
  with assms show ?thesis
    by (simp add: length_controls)
qed

lemma switch_code_iff: "switch_code c = Some i \<longleftrightarrow> i < 22 \<and> controls ! i = c"
  using switch_code_controls_nth switch_code_nth_controls by blast

lemma classify_iff:
  "classify ty c = Some i \<longleftrightarrow> (ty = EV_KEY \<or> ty = EV_ABS) \<and> i < 22 \<and> controls ! i = c"
  by (auto simp: classify_def switch_code_iff)

text \<open>
  C7, as stated, fails: the slot does not depend on the type of the event, so slot 14
  is reached by the code of \<^verbatim>\<open>ABS_X\<close> in a key event and in an axis event, which are
  two pairs of type and code.
\<close>

theorem slot_reached_by_two_pairs:
  "classify EV_KEY ABS_X = Some 14 \<and> classify EV_ABS ABS_X = Some 14
   \<and> (EV_KEY, ABS_X) \<noteq> (EV_ABS, ABS_X)"
  by (simp add: classify_def switch_code_def codes)

text \<open>
  C7, amended. The classifier is a lookup by code: it gives slot \<open>i\<close> exactly for the
  events of type \<^verbatim>\<open>EV_KEY\<close> or \<^verbatim>\<open>EV_ABS\<close> whose code is the \<open>i\<close>-th of the 22 codes of
  \<open>controls\<close>. These codes are distinct, so every slot below 22 is reached by exactly
  one code (under either of the two types), no two codes reach the same slot, and no
  slot outside \<open>[0, 22)\<close> is ever chosen.
\<close>

theorem classify_injective_on_codes:
  "(classify ty c = Some i \<longleftrightarrow> (ty = EV_KEY \<or> ty = EV_ABS) \<and> i < 22 \<and> controls ! i = c)
   \<and> length controls = 22 \<and> distinct controls
   \<and> (\<forall>i<22. \<exists>!c. switch_code c = Some i)
   \<and> (\<forall>c c' i. switch_code c = Some i \<and> switch_code c' = Some i \<longrightarrow> c = c')"
proof -
  have d: "distinct controls"
    by (simp add: controls_def codes)
  have u: "\<forall>i<22. \<exists>!c. switch_code c = Some i"
    by (auto simp: switch_code_iff)
  have inj: "\<forall>c c' i. switch_code c = Some i \<and> switch_code c' = Some i \<longrightarrow> c = c'"
    by (auto simp: switch_code_iff)
  from d u inj show ?thesis
    by (simp add: classify_iff length_controls)
qed

theorem classify_injective_on_codes_witness:
  "classify EV_KEY BTN_START = Some 21 \<and> classify EV_ABS BTN_START = Some 21
   \<and> (\<exists>!c. switch_code c = Some 21)"
proof -
  have n: "controls ! 21 = BTN_START"
    by (simp add: controls_def)
  have k: "classify EV_KEY BTN_START = Some 21"
    using classify_injective_on_codes [of EV_KEY BTN_START 21] n by simp
  have a: "classify EV_ABS BTN_START = Some 21"
    using classify_injective_on_codes [of EV_ABS BTN_START 21] n by simp
  have "\<forall>i<22. \<exists>!c. switch_code c = Some i"
    using classify_injective_on_codes [of EV_KEY BTN_START 21] by blast
  then have "\<exists>!c. switch_code c = Some 21"
    by simp
  with k a show ?thesis
    by simp
qed

text \<open>
  C10. For events of type \<^verbatim>\<open>EV_KEY\<close> or \<^verbatim>\<open>EV_ABS\<close> the slot, and with it the event
  sent, depends on the code only and not on the type. A key event with code 0, the
  code of \<^verbatim>\<open>ABS_X\<close>, is classified to the pitch-bend slot 14 and sends a pitch-bend
  event; an axis event with the code of \<^verbatim>\<open>BTN_SOUTH\<close> is classified to the note-on slot
  1 and sends a note-on event.
\<close>

theorem classify_ignores_type:
  assumes "ty = EV_KEY \<or> ty = EV_ABS"
    and "ty' = EV_KEY \<or> ty' = EV_ABS"
  shows "classify ty c = classify ty' c
    \<and> classify ty c = switch_code c
    \<and> sent_by m \<lparr>iev_type = ty, iev_code = c, iev_value = v\<rparr> s =
        sent_by m \<lparr>iev_type = ty', iev_code = c, iev_value = v\<rparr> s
    \<and> ABS_X = 0
    \<and> classify EV_KEY 0 = Some 14
    \<and> run map_default [input EV_KEY 0 v] buf = [PitchBend 0 (v * 64 - 8192)]
    \<and> classify EV_ABS BTN_SOUTH = Some 1
    \<and> run map_default [input EV_ABS BTN_SOUTH v] buf = [NoteOn 0 52 (if v = 1 then 127 else 0)]"
proof -
  have same: "classify ty c = switch_code c" "classify ty' c = switch_code c"
    using assms by (simp_all add: classify_key_abs)
  then have sent: "sent_by m \<lparr>iev_type = ty, iev_code = c, iev_value = v\<rparr> s =
      sent_by m \<lparr>iev_type = ty', iev_code = c, iev_value = v\<rparr> s"
    by (simp add: sent_by_def cycle_def Let_def split: option.splits prod.splits)
  have x: "ABS_X = 0" "classify EV_KEY 0 = Some 14" "classify EV_ABS BTN_SOUTH = Some 1"
    by (simp_all add: classify_def switch_code_def codes)
  have pb: "run map_default [input EV_KEY 0 v] buf = [PitchBend 0 (v * 64 - 8192)]"
    by (simp add: run_def init_state_def input_def cycle_def classify_def switch_code_def
        switch_ev_type_def send_event_def map_default_def mk_map_def codes)
  have n: "run map_default [input EV_ABS BTN_SOUTH v] buf = [NoteOn 0 52 (if v = 1 then 127 else 0)]"
    by (simp add: run_def init_state_def input_def cycle_def classify_def switch_code_def
        switch_ev_type_def send_event_def map_default_def mk_map_def codes)
  from same sent x pb n show ?thesis
    by simp
qed

theorem classify_ignores_type_witness:
  "classify EV_KEY ABS_RZ = classify EV_ABS ABS_RZ
   \<and> sent_by map_default \<lparr>iev_type = EV_KEY, iev_code = ABS_RZ, iev_value = 1\<rparr> (init_state iev0)
     = sent_by map_default \<lparr>iev_type = EV_ABS, iev_code = ABS_RZ, iev_value = 1\<rparr> (init_state iev0)"
proof -
  have k: "EV_KEY = EV_KEY \<or> EV_KEY = EV_ABS" and a: "EV_ABS = EV_KEY \<or> EV_ABS = EV_ABS"
    by simp_all
  show ?thesis
    using classify_ignores_type [OF k a, of ABS_RZ map_default 1 "init_state iev0"]
    by simp
qed

subsection \<open>The stick axes of the default table\<close>

text \<open>
  C8, as stated, fails: the pitch-bend events that the four stick axes send with the
  default table do not have distinct channels.
\<close>

theorem stick_channels_not_distinct:
  "\<not> distinct (map ev_channel
      (run map_default
         [input EV_ABS ABS_X 0, input EV_ABS ABS_Y 0, input EV_ABS ABS_RX 0, input EV_ABS ABS_RY 0] iev0))"
  by (simp add: run_def init_state_def input_def cycle_def classify_def switch_code_def
      switch_ev_type_def send_event_def map_default_def mk_map_def codes)

text \<open>
  C8, amended. With the default table each of the four stick axes \<^verbatim>\<open>ABS_X\<close>, \<^verbatim>\<open>ABS_Y\<close>,
  \<^verbatim>\<open>ABS_RX\<close>, \<^verbatim>\<open>ABS_RY\<close> sends a pitch-bend event, and all four send it on channel 0:
  the entries of slots 14 to 17 differ in their number only (0, 1, 2, 3), which a
  pitch-bend event does not carry.
\<close>

theorem stick_channels_all_zero:
  "run map_default [input EV_ABS ABS_X v] buf = [PitchBend 0 (v * 64 - 8192)]
   \<and> run map_default [input EV_ABS ABS_Y v] buf = [PitchBend 0 (v * 64 - 8192)]
   \<and> run map_default [input EV_ABS ABS_RX v] buf = [PitchBend 0 (v * 64 - 8192)]
   \<and> run map_default [input EV_ABS ABS_RY v] buf = [PitchBend 0 (v * 64 - 8192)]
   \<and> map channel (take 4 (drop 14 map_default)) = [0, 0, 0, 0]
   \<and> map number (take 4 (drop 14 map_default)) = [0, 1, 2, 3]"
  by (simp add: run_def init_state_def input_def cycle_def classify_def switch_code_def
      switch_ev_type_def send_event_def map_default_def mk_map_def codes)

subsection \<open>A read that fails\<close>

text \<open>
  C9, as stated, fails: after a button press has been read, two reads that fail do not
  stop the loop. It goes through two more cycles with the buffer as the last good read
  left it, and sends the note-on event again in each of them. A read that fails at the
  start does not stop the loop either: the press read after it is sent.
\<close>

theorem failed_read_goes_on:
  "run map_default [input EV_KEY BTN_SOUTH 1, ReadFail, ReadFail] iev0
     = [NoteOn 0 52 127, NoteOn 0 52 127, NoteOn 0 52 127]
   \<and> run map_default [input EV_KEY BTN_SOUTH 1] iev0 = [NoteOn 0 52 127]
   \<and> run map_default [ReadFail, input EV_KEY BTN_SOUTH 1] iev0 = [NoteOn 0 52 127]"
  by (simp add: run_def init_state_def iev0_def input_def cycle_def classify_def switch_code_def
      switch_ev_type_def send_event_def map_default_def mk_map_def codes)

text \<open>
  C9, amended. The loop does not look at the outcome of the read. A cycle whose read
  failed goes on exactly as if the event that the buffer holds had been read again
  (same event sent, same state), and the loop continues with the next cycle.
\<close>

theorem failed_read_rereads_buffer:
  "cycle m ReadFail s = cycle m (ReadOk (iev s)) s
   \<and> main_loop m (ReadFail # rs) s sent = main_loop m (ReadOk (iev s) # rs) s sent"
  by (simp add: cycle_def)


subsection \<open>The user's mappings\<close>


lemma isdigit_not_isspace: "isdigit c \<Longrightarrow> \<not> isspace c"
  by (auto simp: isdigit_def isspace_def)

lemma isdigit_not_sign: "isdigit c \<Longrightarrow> c \<noteq> CHR ''-'' \<and> c \<noteq> CHR ''+'' \<and> c \<noteq> CHR '':''"
  by (auto simp: isdigit_def)

lemma not_isspace_sign: "\<not> isspace CHR ''-''" "\<not> isspace CHR ''+''"
  by (simp_all add: isspace_def)

lemma scan_sign_append:
  "b \<noteq> [] \<Longrightarrow> scan_sign (b @ r) = (fst (scan_sign b), snd (scan_sign b) @ r)"
  by (cases b) simp_all

lemma number_text_nonempty:
  assumes "number_text a"
  shows "dropWhile isspace a \<noteq> []"
proof
  assume e: "dropWhile isspace a = []"
  from assms have "snd (scan_sign (dropWhile isspace a)) \<noteq> []"
    unfolding number_text_def by blast
  then have "snd (scan_sign []) \<noteq> []"
    unfolding e .
  then show False
    by simp
qed

lemma dropWhile_append_nonempty:
  "dropWhile P xs \<noteq> [] \<Longrightarrow> dropWhile P (xs @ ys) = dropWhile P xs @ ys"
  by (induction xs) auto

lemma takeWhile_all_append:
  "list_all P xs \<Longrightarrow> ys = [] \<or> \<not> P (hd ys) \<Longrightarrow> takeWhile P (xs @ ys) = xs"
  by (induction xs) (auto simp: takeWhile_eq_Nil_iff)

lemma dropWhile_all_append:
  "list_all P xs \<Longrightarrow> ys = [] \<or> \<not> P (hd ys) \<Longrightarrow> dropWhile P (xs @ ys) = ys"
  by (induction xs) (auto simp: dropWhile_eq_self_iff)

lemma scan_u_number_text:
  assumes "number_text a" and "r = [] \<or> \<not> isdigit (hd r)"
  shows "scan_u (a @ r) = Some (number_value a, r)"
proof -
  let ?b = "dropWhile isspace a"
  let ?d = "snd (scan_sign ?b)"
  from assms(1) have b: "?b \<noteq> []"
    by (rule number_text_nonempty)
  from assms(1) have d: "?d \<noteq> []" "list_all isdigit ?d"
    unfolding number_text_def by blast+
  have 1: "dropWhile isspace (a @ r) = ?b @ r"
    using b by (rule dropWhile_append_nonempty)
  have 2: "scan_sign (?b @ r) = (fst (scan_sign ?b), ?d @ r)"
    using b by (rule scan_sign_append)
  have 3: "takeWhile isdigit (?d @ r) = ?d" "dropWhile isdigit (?d @ r) = r"
    using d(2) assms(2) by (simp_all add: takeWhile_all_append dropWhile_all_append)
  show ?thesis
    using d(1) by (simp add: scan_u_def 1 2 3 number_value_def)
qed

lemma scan_sign_cases:
  "scan_sign b = (neg, s') \<Longrightarrow>
    (b = s' \<and> \<not> neg \<and> (b = [] \<or> (hd b \<noteq> CHR ''-'' \<and> hd b \<noteq> CHR ''+'')))
    \<or> (b = CHR ''-'' # s' \<and> neg) \<or> (b = CHR ''+'' # s' \<and> \<not> neg)"
  by (cases b) (auto split: if_splits)

lemma number_text_digits:
  assumes "ds \<noteq> []" and "list_all isdigit ds" and "list_all isspace ws"
    and "sg = [] \<or> sg = ''-'' \<or> sg = ''+''"
  shows "number_text (ws @ sg @ ds)"
    and "number_value (ws @ sg @ ds) = store_u (sg = ''-'') (decimal ds)"
proof -
  from assms(1,2) have h: "isdigit (hd ds)"
    by (cases ds) simp_all
  then have ns: "\<not> isspace (hd (sg @ ds))"
    using assms(1,4) by (auto simp: isdigit_not_isspace not_isspace_sign)
  have ne: "sg @ ds \<noteq> []"
    using assms(1) by simp
  have dw: "dropWhile isspace (ws @ sg @ ds) = sg @ ds"
    using assms(3) ns ne
    by (metis dropWhile_all_append)
  have ss: "scan_sign (sg @ ds) = (sg = ''-'', ds)"
    using assms(1,4) h by (cases ds) (auto simp: isdigit_not_sign)
  show "number_text (ws @ sg @ ds)"
    using assms(1,2) by (simp add: number_text_def dw ss)
  show "number_value (ws @ sg @ ds) = store_u (sg = ''-'') (decimal ds)"
    by (simp add: number_value_def dw ss)
qed

lemma scan_u_Some:
  assumes "scan_u s = Some (v, r)"
  shows "\<exists>a. s = a @ r \<and> number_text a \<and> number_value a = v \<and> (r = [] \<or> \<not> isdigit (hd r))"
proof -
  let ?ws = "takeWhile isspace s"
  let ?b = "dropWhile isspace s"
  obtain neg s' where ss: "scan_sign ?b = (neg, s')"
    by (cases "scan_sign ?b")
  let ?ds = "takeWhile isdigit s'"
  from assms ss have ds: "?ds \<noteq> []" and v: "v = store_u neg (decimal ?ds)"
    and r: "r = dropWhile isdigit s'"
    by (auto simp: scan_u_def split: if_splits)
  obtain sg where sg: "?b = sg @ s'" "sg = [] \<or> sg = ''-'' \<or> sg = ''+''" "neg = (sg = ''-'')"
    using scan_sign_cases [OF ss] by auto
  have s: "s = (?ws @ sg @ ?ds) @ r"
    using sg(1) r by (metis append.assoc takeWhile_dropWhile_id)
  have all: "list_all isdigit ?ds" "list_all isspace ?ws"
    by (simp_all add: list_all_iff) (auto dest: set_takeWhileD)
  have rest: "r = [] \<or> \<not> isdigit (hd r)"
    unfolding r by (metis hd_dropWhile)
  from number_text_digits [OF ds all sg(2)] v sg(3) s rest show ?thesis
    by blast
qed

lemma not_isdigit_colon: "\<not> isdigit CHR '':''"
  by (simp add: isdigit_def)

lemma sscanf_map_text:
  assumes "k = CHR ''c'' \<or> k = CHR ''n''"
    and "number_text a" and "number_text b" and "r = [] \<or> \<not> isdigit (hd r)"
  shows "sscanf_map (k # CHR '':'' # a @ CHR '':'' # b @ r)
    = Scanned3 k (number_value a) (number_value b)"
proof -
  have 1: "scan_u (a @ CHR '':'' # b @ r) = Some (number_value a, CHR '':'' # b @ r)"
    using assms(2) by (rule scan_u_number_text) (simp add: not_isdigit_colon)
  have 2: "scan_u (b @ r) = Some (number_value b, r)"
    using assms(3,4) by (rule scan_u_number_text)
  show ?thesis
    using assms(1) by (auto simp: 1 2)
qed

lemma sscanf_map_Scanned3:
  assumes "sscanf_map s = Scanned3 k c n"
  shows "\<exists>a b r. s = k # CHR '':'' # a @ CHR '':'' # b @ r
    \<and> (k = CHR ''c'' \<or> k = CHR ''n'') \<and> number_text a \<and> number_text b
    \<and> (r = [] \<or> \<not> isdigit (hd r)) \<and> c = number_value a \<and> n = number_value b"
proof -
  from assms obtain s1 where s: "s = k # CHR '':'' # s1" and k: "k = CHR ''c'' \<or> k = CHR ''n''"
    by (cases s) (auto split: if_splits list.splits option.splits)
  from assms s k obtain s3 where u1: "scan_u s1 = Some (c, CHR '':'' # s3)"
    by (auto split: if_splits list.splits option.splits)
  from assms s k u1 obtain r where u2: "scan_u s3 = Some (n, r)"
    by (auto split: if_splits list.splits option.splits)
  from scan_u_Some [OF u1] obtain a where a: "s1 = a @ CHR '':'' # s3" "number_text a"
    "number_value a = c"
    by blast
  from scan_u_Some [OF u2] obtain b where b: "s3 = b @ r" "number_text b" "number_value b = n"
    "r = [] \<or> \<not> isdigit (hd r)"
    by blast
  from s k a b show ?thesis
    by blast
qed

lemma word_le_15_not_127: "(c::u32) \<le> 16 \<Longrightarrow> 1 \<le> c \<Longrightarrow> \<not> 127 < c - 1"
  by (simp add: word_le_nat_alt word_less_nat_alt unat_sub)

lemma parse_map_Scanned3:
  assumes "sscanf_map s = Scanned3 k c n"
  shows "parse_map i s m =
    (if 1 \<le> c \<and> c \<le> 16 then
       Inr (m[i := \<lparr>ev_type = (if k = CHR ''c'' then SND_SEQ_EVENT_CONTROLLER
                                else SND_SEQ_EVENT_NOTEON),
                    number = n, channel = c - 1\<rparr>], False)
     else Inl Channel_range)"
  using assms by (simp add: parse_map_def word_le_15_not_127)

lemma parse_map_not_invalid:
  "parse_map i s m \<noteq> Inl Invalid_mapping \<longleftrightarrow> (\<exists>k c n. sscanf_map s = Scanned3 k c n)"
  by (cases "sscanf_map s") (simp_all add: parse_map_def)

lemma split_colon_nonempty: "split_colon s \<noteq> []"
  by (induction s) (auto split: list.splits)

lemma split_colon_Cons:
  "split_colon s = t # ts \<Longrightarrow>
    (ts = [] \<and> s = t) \<or> (\<exists>s'. s = t @ CHR '':'' # s' \<and> split_colon s' = ts)"
proof (induction s arbitrary: t ts)
  case Nil
  then show ?case by simp
next
  case (Cons c s)
  show ?case
  proof (cases "c = CHR '':''")
    case True
    with Cons.prems show ?thesis by auto
  next
    case False
    obtain u us where u: "split_colon s = u # us"
      using split_colon_nonempty [of s] by (cases "split_colon s") auto
    with False Cons.prems have t: "t = c # u" "ts = us"
      by simp_all
    from Cons.IH [OF u] t show ?thesis
      by auto
  qed
qed

lemma split_colon_three:
  assumes "split_colon s = [t1, t2, t3]"
  shows "s = t1 @ CHR '':'' # t2 @ CHR '':'' # t3"
proof -
  from split_colon_Cons [OF assms] obtain s1 where 1: "s = t1 @ CHR '':'' # s1"
    "split_colon s1 = [t2, t3]"
    by auto
  from split_colon_Cons [OF 1(2)] obtain s2 where 2: "s1 = t2 @ CHR '':'' # s2"
    "split_colon s2 = [t3]"
    by auto
  from split_colon_Cons [OF 2(2)] have "s2 = t3"
    using split_colon_nonempty by auto
  with 1 2 show ?thesis
    by simp
qed

lemma uint_store_u:
  assumes "0 \<le> n" and "n < 2 ^ 32"
  shows "uint (store_u False n) = n"
proof -
  have "\<not> (2::int) ^ 64 \<le> n"
    using assms(2) by simp
  then have "store_u False n = ucast (word_of_int n :: 64 word)"
    by (simp add: store_u_def strtoul_def)
  also have "\<dots> = word_of_int n"
    using assms by (simp add: unsigned_ucast_eq take_bit_int_eq_self word_eq_iff_unsigned [where ?'a = int] uint_word_of_int_eq)
  finally show ?thesis
    using assms by (simp add: uint_word_of_int_eq take_bit_int_eq_self)
qed

lemma spec_numeric_text:
  assumes "spec_numeric t"
  shows "number_text t" and "number_value t = store_u False (decimal t)"
proof -
  from assms have t: "t \<noteq> []" "list_all isdigit t"
    by (simp_all add: spec_numeric_def)
  have e: "([]::string) = [] \<or> ([]::string) = ''-'' \<or> ([]::string) = ''+''"
    by simp
  from number_text_digits [OF t _ e, of "[]"] show "number_text t"
    and "number_value t = store_u False (decimal t)"
    by simp_all
qed

lemma store_u_channel:
  assumes "1 \<le> n" and "n \<le> 16"
  shows "1 \<le> store_u False n \<and> store_u False n \<le> 16 \<and> store_u False n = word_of_int n"
proof -
  have u: "uint (store_u False n) = n"
    using assms by (intro uint_store_u) simp_all
  then have "store_u False n = word_of_int n"
    by (metis word_of_int_uint)
  with u assms show ?thesis
    by (simp add: word_le_def)
qed

lemma parse_map_spec_accepts:
  assumes "spec_accepts s"
  shows "\<exists>k c n. split_colon s = [[k], c, n] \<and> (k = CHR ''c'' \<or> k = CHR ''n'')
    \<and> 1 \<le> decimal c \<and> decimal c \<le> 16
    \<and> parse_map i s m =
        Inr (m[i := \<lparr>ev_type = (if k = CHR ''c'' then SND_SEQ_EVENT_CONTROLLER
                                 else SND_SEQ_EVENT_NOTEON),
                     number = store_u False (decimal n),
                     channel = word_of_int (decimal c) - 1\<rparr>], False)"
proof -
  from assms obtain k c n where sp: "split_colon s = [[k], c, n]" "k = CHR ''c'' \<or> k = CHR ''n''"
    "spec_numeric c" "spec_numeric n" "1 \<le> decimal c" "decimal c \<le> 16"
    by (auto simp: spec_accepts_def split: list.splits)
  from split_colon_three [OF sp(1)] have s: "s = k # CHR '':'' # c @ CHR '':'' # n @ []"
    by simp
  have "sscanf_map s = Scanned3 k (number_value c) (number_value n)"
    unfolding s using sp(2) spec_numeric_text(1) [OF sp(3)] spec_numeric_text(1) [OF sp(4)]
    by (rule sscanf_map_text) simp
  then have "sscanf_map s = Scanned3 k (store_u False (decimal c)) (store_u False (decimal n))"
    by (simp add: spec_numeric_text(2) [OF sp(3)] spec_numeric_text(2) [OF sp(4)])
  from parse_map_Scanned3 [OF this] store_u_channel [OF sp(5,6)] sp show ?thesis
    by auto
qed



text \<open>
  C4, as stated, fails: text after the number is not looked at, so a mapping with four
  tokens and a mapping whose last field is not numeric are both applied.
\<close>

theorem parse_map_accepts_trailing_text:
  "parse_map 0 ''c:1:64:99'' map_default
     = Inr (map_default[0 := mk_map SND_SEQ_EVENT_CONTROLLER 64 0], False)
   \<and> split_colon ''c:1:64:99'' = [''c'', ''1'', ''64'', ''99'']
   \<and> \<not> spec_accepts ''c:1:64:99''
   \<and> parse_map 0 ''c:1:6x'' map_default
     = Inr (map_default[0 := mk_map SND_SEQ_EVENT_CONTROLLER 6 0], False)
   \<and> \<not> spec_accepts ''c:1:6x''"
  by (simp add: parse_map_def scan_u_def isspace_def isdigit_def decimal_def store_u_def
      strtoul_def mk_map_def spec_accepts_def spec_numeric_def)

text \<open>
  C4, amended. \<^verbatim>\<open>parse_map\<close> gets past the scan exactly when the string begins with
  a \<open>c\<close> or an \<open>n\<close>, a colon, the text of a number as \<^verbatim>\<open>%u\<close> reads it (white space and
  a sign may come before the digits), a colon and the text of a second number;
  whatever follows the last digit is ignored. It then succeeds when the first number
  is between 1 and 16, and fails with the channel error otherwise. On success entry
  \<open>i\<close> of the table gets the type controller for \<open>c\<close> and note-on for \<open>n\<close>, the first
  number minus one as channel and the second number as number, and no message about
  the number is printed. Every string of exactly the three tokens of the
  specification, with the channel between 1 and 16, succeeds in this way. \<open>c:1:64\<close>
  gives a controller on channel 0 with number 64; \<open>x:1:1\<close>, a string with two tokens and
  a string with a field that does not start with a number are invalid mappings;
  \<open>c:0:64\<close> and \<open>c:17:64\<close> are channel errors.
\<close>

theorem parse_map_format:
  "(\<forall>k a b r. s = k # CHR '':'' # a @ CHR '':'' # b @ r
        \<and> (k = CHR ''c'' \<or> k = CHR ''n'') \<and> number_text a \<and> number_text b
        \<and> (r = [] \<or> \<not> isdigit (hd r)) \<longrightarrow>
      parse_map i s m =
        (if 1 \<le> number_value a \<and> number_value a \<le> 16 then
           Inr (m[i := \<lparr>ev_type = (if k = CHR ''c'' then SND_SEQ_EVENT_CONTROLLER
                                    else SND_SEQ_EVENT_NOTEON),
                        number = number_value b, channel = number_value a - 1\<rparr>], False)
         else Inl Channel_range))
   \<and> (parse_map i s m \<noteq> Inl Invalid_mapping \<longrightarrow>
        (\<exists>k a b r. s = k # CHR '':'' # a @ CHR '':'' # b @ r
          \<and> (k = CHR ''c'' \<or> k = CHR ''n'') \<and> number_text a \<and> number_text b
          \<and> (r = [] \<or> \<not> isdigit (hd r))))
   \<and> (spec_accepts s \<longrightarrow>
        (\<exists>k c n. split_colon s = [[k], c, n] \<and> (k = CHR ''c'' \<or> k = CHR ''n'')
          \<and> 1 \<le> decimal c \<and> decimal c \<le> 16
          \<and> parse_map i s m =
              Inr (m[i := \<lparr>ev_type = (if k = CHR ''c'' then SND_SEQ_EVENT_CONTROLLER
                                       else SND_SEQ_EVENT_NOTEON),
                           number = store_u False (decimal n),
                           channel = word_of_int (decimal c) - 1\<rparr>], False)))
   \<and> (\<forall>n. 0 \<le> n \<and> n < 2 ^ 32 \<longrightarrow> uint (store_u False n) = n)
   \<and> parse_map 0 ''c:1:64'' map_default
       = Inr (map_default[0 := mk_map SND_SEQ_EVENT_CONTROLLER 64 0], False)
   \<and> parse_map i ''x:1:1'' m = Inl Invalid_mapping
   \<and> parse_map i ''c:1'' m = Inl Invalid_mapping
   \<and> parse_map i ''c:one:64'' m = Inl Invalid_mapping
   \<and> parse_map i ''c:0:64'' m = Inl Channel_range
   \<and> parse_map i ''c:17:64'' m = Inl Channel_range"
proof -
  have sound: "\<forall>k a b r. s = k # CHR '':'' # a @ CHR '':'' # b @ r
        \<and> (k = CHR ''c'' \<or> k = CHR ''n'') \<and> number_text a \<and> number_text b
        \<and> (r = [] \<or> \<not> isdigit (hd r)) \<longrightarrow>
      parse_map i s m =
        (if 1 \<le> number_value a \<and> number_value a \<le> 16 then
           Inr (m[i := \<lparr>ev_type = (if k = CHR ''c'' then SND_SEQ_EVENT_CONTROLLER
                                    else SND_SEQ_EVENT_NOTEON),
                        number = number_value b, channel = number_value a - 1\<rparr>], False)
         else Inl Channel_range)"
    using parse_map_Scanned3 [OF sscanf_map_text] by blast
  have complete: "parse_map i s m \<noteq> Inl Invalid_mapping \<longrightarrow>
        (\<exists>k a b r. s = k # CHR '':'' # a @ CHR '':'' # b @ r
          \<and> (k = CHR ''c'' \<or> k = CHR ''n'') \<and> number_text a \<and> number_text b
          \<and> (r = [] \<or> \<not> isdigit (hd r)))"
  proof
    assume "parse_map i s m \<noteq> Inl Invalid_mapping"
    then obtain k c n where "sscanf_map s = Scanned3 k c n"
      unfolding parse_map_not_invalid by blast
    from sscanf_map_Scanned3 [OF this]
    show "\<exists>k a b r. s = k # CHR '':'' # a @ CHR '':'' # b @ r
          \<and> (k = CHR ''c'' \<or> k = CHR ''n'') \<and> number_text a \<and> number_text b
          \<and> (r = [] \<or> \<not> isdigit (hd r))"
      by blast
  qed
  have spec: "spec_accepts s \<longrightarrow>
        (\<exists>k c n. split_colon s = [[k], c, n] \<and> (k = CHR ''c'' \<or> k = CHR ''n'')
          \<and> 1 \<le> decimal c \<and> decimal c \<le> 16
          \<and> parse_map i s m =
              Inr (m[i := \<lparr>ev_type = (if k = CHR ''c'' then SND_SEQ_EVENT_CONTROLLER
                                       else SND_SEQ_EVENT_NOTEON),
                           number = store_u False (decimal n),
                           channel = word_of_int (decimal c) - 1\<rparr>], False))"
    using parse_map_spec_accepts by blast
  have fits: "\<forall>n. 0 \<le> n \<and> n < 2 ^ 32 \<longrightarrow> uint (store_u False n) = n"
    using uint_store_u by blast
  have ok: "parse_map 0 ''c:1:64'' map_default
       = Inr (map_default[0 := mk_map SND_SEQ_EVENT_CONTROLLER 64 0], False)"
    by (simp add: parse_map_def scan_u_def isspace_def isdigit_def decimal_def store_u_def
        strtoul_def mk_map_def)
  have bad: "parse_map i ''x:1:1'' m = Inl Invalid_mapping"
    "parse_map i ''c:1'' m = Inl Invalid_mapping"
    "parse_map i ''c:one:64'' m = Inl Invalid_mapping"
    "parse_map i ''c:0:64'' m = Inl Channel_range"
    "parse_map i ''c:17:64'' m = Inl Channel_range"
    by (simp_all add: parse_map_def scan_u_def isspace_def isdigit_def decimal_def store_u_def
        strtoul_def)
  show ?thesis
    by (intro conjI) (fact sound complete spec fits ok bad)+
qed

theorem parse_map_format_witness:
  "parse_map 2 ''n: 16:+127;'' map_default
     = Inr (map_default[2 := mk_map SND_SEQ_EVENT_NOTEON 127 15], False)
   \<and> spec_accepts ''n:16:127''
   \<and> parse_map 2 ''n:16:127'' map_default
     = Inr (map_default[2 := mk_map SND_SEQ_EVENT_NOTEON 127 15], False)"
proof -
  have v: "number_value '' 16'' = 16" "number_value ''+127'' = 127"
    by (simp_all add: number_value_def isspace_def decimal_def store_u_def strtoul_def)
  have prem: "''n: 16:+127;'' = CHR ''n'' # CHR '':'' # '' 16'' @ CHR '':'' # ''+127'' @ '';''
      \<and> (CHR ''n'' = CHR ''c'' \<or> CHR ''n'' = CHR ''n'')
      \<and> number_text '' 16'' \<and> number_text ''+127''
      \<and> ('';'' = [] \<or> \<not> isdigit (hd '';''))"
    by (simp add: number_text_def isspace_def isdigit_def)
  have 1: "parse_map 2 ''n: 16:+127;'' map_default
     = Inr (map_default[2 := mk_map SND_SEQ_EVENT_NOTEON 127 15], False)"
    using parse_map_format [of "''n: 16:+127;''" 2 map_default, THEN conjunct1, rule_format,
        OF prem]
    by (simp add: v mk_map_def)
  have a: "spec_accepts ''n:16:127''"
    by (simp add: spec_accepts_def spec_numeric_def isdigit_def decimal_def)
  have sp: "split_colon ''n:16:127'' = [''n'', ''16'', ''127'']"
    by simp
  have d: "decimal ''16'' = 16" "store_u False (decimal ''127'') = 127"
    by (simp_all add: decimal_def store_u_def strtoul_def)
  from parse_map_format [of "''n:16:127''" 2 map_default, THEN conjunct2, THEN conjunct2,
      THEN conjunct1, rule_format, OF a]
  obtain k c n where kcn: "split_colon ''n:16:127'' = [[k], c, n]"
    and p: "parse_map 2 ''n:16:127'' map_default =
        Inr (map_default[2 := \<lparr>ev_type = (if k = CHR ''c'' then SND_SEQ_EVENT_CONTROLLER
                                 else SND_SEQ_EVENT_NOTEON),
                     number = store_u False (decimal n),
                     channel = word_of_int (decimal c) - 1\<rparr>], False)"
    by blast
  from kcn have "k = CHR ''n''" "c = ''16''" "n = ''127''"
    unfolding sp by simp_all
  with p have 2: "parse_map 2 ''n:16:127'' map_default
     = Inr (map_default[2 := mk_map SND_SEQ_EVENT_NOTEON 127 15], False)"
    by (simp add: d mk_map_def)
  from 1 a 2 show ?thesis
    by simp
qed

text \<open>
  C5: the number of a mapping is not checked. \<^verbatim>\<open>c:1:200\<close> is applied without an error
  and without the message about the range of numbers, which the code prints after
  testing the channel, not the number; with \<^verbatim>\<open>-1 n:1:200\<close> the program enters the loop
  and a press of the first button sends a note-on event with note 200.
\<close>

theorem parse_map_number_200:
  "parse_map 0 ''c:1:200'' map_default
     = Inr (map_default[0 := mk_map SND_SEQ_EVENT_CONTROLLER 200 0], False)
   \<and> main_prog [Button_one ''n:1:200''] [input EV_KEY BTN_NORTH 1] iev0 = Inr [NoteOn 0 200 127]"
  by (simp add: main_prog_def parse_map_def scan_u_def isspace_def isdigit_def decimal_def
      store_u_def strtoul_def mk_map_def run_def init_state_def input_def cycle_def classify_def
      switch_code_def switch_ev_type_def send_event_def map_default_def codes)


end
